theory Spec2Isabelle
  imports Main "HOL-Library.Word"
begin

unbundle bit_operations_syntax

section \<open>Data model\<close>

text \<open>
  A curve point as the program sees it: an object with integer attributes \<open>x\<close> and
  \<open>y\<close> (\<open>Point(x, y, curve=P256)\<close>). Python integers are unbounded, hence \<open>int\<close>.
\<close>

datatype point = Point (px: int) (py: int)

text \<open>
  The program imports the curve object \<open>P256\<close> and the \<open>Point\<close> class from the
  external library fastecdsa, and \<open>p256_mod_sqrt\<close> from the module mathutil. Their
  source is not part of \<open>dualec.py\<close>, so the embedding takes them as parameters,
  collected in one record: the constants \<open>P256.p\<close>, \<open>P256.b\<close>, \<open>P256.q\<close>,
  \<open>P256.G\<close>, the overloaded product \<open>scalar * point\<close> and the square-root routine.
  Every function of \<open>dualec.py\<close> below receives this record as its first argument.
\<close>

record provider =
  P256_p :: int
  P256_b :: int
  P256_q :: int
  P256_G :: point
  point_mul :: "int \<Rightarrow> point \<Rightarrow> point"
  p256_mod_sqrt :: "int \<Rightarrow> int"

text \<open>The exceptions the program can raise.\<close>

datatype error = ValueError | AssertionError | ModInvError

text \<open>The class \<open>DualEC\<close>: three attributes set by \<open>__init__\<close>.\<close>

record DualEC =
  seed :: int
  P :: point
  Q :: point

section \<open>Truncation helpers\<close>

definition take30bytes :: "int \<Rightarrow> int" where
  "take30bytes x = x AND (2 ^ (8 * 30) - 1)"

definition take26bytes :: "int \<Rightarrow> int" where
  "take26bytes next_output = next_output AND (2 ^ (8 * 26) - 1)"

definition take4MSBytes :: "int \<Rightarrow> int" where
  "take4MSBytes next_output = drop_bit (8 * 26) next_output"

section \<open>The generator\<close>

text \<open>
  \<open>genbits\<close> mutates \<open>self.seed\<close> and returns the output; the model returns the
  output together with the updated object.
\<close>

definition genbits :: "provider \<Rightarrow> 'a DualEC_scheme \<Rightarrow> int \<times> 'a DualEC_scheme" where
  "genbits cv self =
     (let t = seed self;
          s = px (point_mul cv t (P self));
          self' = self\<lparr>seed := s\<rparr>;
          r = px (point_mul cv s (Q self'))
      in (take30bytes r, self'))"

text \<open>\<open>n\<close> consecutive calls of \<open>genbits\<close> on one object: the outputs in order, and the final object.\<close>

fun genbits_n :: "provider \<Rightarrow> nat \<Rightarrow> 'a DualEC_scheme \<Rightarrow> int list \<times> 'a DualEC_scheme" where
  "genbits_n cv 0 self = ([], self)"
| "genbits_n cv (Suc n) self =
     (let (r, self') = genbits cv self;
          (rs, self'') = genbits_n cv n self'
      in (r # rs, self''))"

section \<open>Curve membership\<close>

definition find_point_on_p256 :: "provider \<Rightarrow> int \<Rightarrow> point option" where
  "find_point_on_p256 cv x =
     (let y2 = (x * x * x) - (3 * x) + P256_b cv;
          y2' = y2 mod P256_p cv;
          y = p256_mod_sqrt cv y2'
      in if y2' = (y * y) mod P256_p cv then Some (Point x y) else None)"

section \<open>Modular inverse\<close>

text \<open>
  Modelled from the spec: the extended Euclidean algorithm, on which \<open>mod_inv\<close> of the
  module mathutil rests; mathutil is not among the sources. \<open>egcd a b\<close> is a triple
  \<open>(g, x, y)\<close> with \<open>a * x + b * y = g\<close>, and \<open>g\<close> is the greatest common divisor
  when \<open>a\<close> and \<open>b\<close> are not negative.
\<close>

function egcd :: "int \<Rightarrow> int \<Rightarrow> int \<times> int \<times> int" where
  "egcd a b =
     (if a = 0 then (b, 0, 1)
      else (let (g, y, x) = egcd (b mod a) a in (g, x - (b div a) * y, y)))"
  by pat_completeness auto
termination
  by (relation "measure (\<lambda>(a, b). nat \<bar>a\<bar>)") (auto simp: abs_mod_less)

declare egcd.simps [simp del]

text \<open>
  Modelled from the spec: \<open>mod_inv\<close> of the module mathutil. The spec says:
  "\<open>mod_inverse(a, modulus)\<close> fails if a and modulus are not coprime"; otherwise the
  result is the inverse of \<open>a\<close> modulo \<open>modulus\<close>, here reduced into \<open>[0, modulus)\<close>.
\<close>

definition mod_inv :: "int \<Rightarrow> int \<Rightarrow> error + int" where
  "mod_inv a m =
     (let (g, x, y) = egcd a m
      in if g \<noteq> 1 then Inl ModInvError else Inr (x mod m))"

section \<open>Backdoor construction\<close>

definition backdoor_sanity_check :: "provider \<Rightarrow> point \<Rightarrow> point \<Rightarrow> int \<Rightarrow> error + unit" where
  "backdoor_sanity_check cv Pt Qt d =
     (if point_mul cv d Qt = Pt then Inr () else Inl AssertionError)"


section \<open>The predictor\<close>

text \<open>
  One iteration of the loop of \<open>gen_prediction\<close>, for one value of \<open>high_bits\<close>:
  \<open>Some v\<close> when the iteration executes \<open>return v\<close>, \<open>None\<close> when it falls through
  to the next iteration.
\<close>

definition try_high_bits :: "provider \<Rightarrow> int \<Rightarrow> int \<Rightarrow> point \<Rightarrow> int \<Rightarrow> int \<Rightarrow> int option" where
  "try_high_bits cv observed1 observed2 Qt d high_bits =
     (let guess = push_bit (8 * 30) high_bits OR observed1 in
      case find_point_on_p256 cv guess of
        None \<Rightarrow> None
      | Some point \<Rightarrow>
          (let state = px (point_mul cv d point);
               next_output = take30bytes (px (point_mul cv state Qt))
           in if take4MSBytes next_output = observed2
              then Some (take26bytes next_output) else None))"

text \<open>The \<open>for\<close> loop over a list of candidates, and the \<open>raise\<close> after it.\<close>

fun prediction_loop :: "provider \<Rightarrow> int \<Rightarrow> int \<Rightarrow> point \<Rightarrow> int \<Rightarrow> nat list \<Rightarrow> error + int" where
  "prediction_loop cv observed1 observed2 Qt d [] = Inl ValueError"
| "prediction_loop cv observed1 observed2 Qt d (high_bits # rest) =
     (case try_high_bits cv observed1 observed2 Qt d (int high_bits) of
        Some v \<Rightarrow> Inr v
      | None \<Rightarrow> prediction_loop cv observed1 observed2 Qt d rest)"

text \<open>\<open>range(2**16)\<close> is the list \<open>[0..<2 ^ 16]\<close>. The argument \<open>P\<close> is not used by the body.\<close>

definition gen_prediction :: "provider \<Rightarrow> int \<Rightarrow> int \<Rightarrow> point \<Rightarrow> point \<Rightarrow> int \<Rightarrow> error + int" where
  "gen_prediction cv observed1 observed2 Pt Qt d =
     prediction_loop cv observed1 observed2 Qt d [0..<2 ^ 16]"

section \<open>Providers\<close>

text \<open>
  The program runs on the curve arithmetic of the library fastecdsa, the Curve
  Arithmetic Provider of the spec. Two providers are defined here, both by the textbook
  affine arithmetic of a curve \<open>y\<^sup>2 = x\<^sup>3 - 3x + b\<close> over the integers modulo a prime
  \<open>p\<close>, with \<open>Point 0 0\<close> standing for the point at infinity: the curve P-256, and a
  small curve on which the program can be run step by step.
\<close>

text \<open>
  Modelled from the spec: division in the prime field, by the modular inverse
  (0 when there is none).
\<close>

definition inv_mod :: "int \<Rightarrow> int \<Rightarrow> int" where
  "inv_mod p a = (case mod_inv (a mod p) p of Inl _ \<Rightarrow> 0 | Inr e \<Rightarrow> e)"

text \<open>
  Modelled from the spec: doubling of a point (the tangent rule; a point of order two
  doubles to the point at infinity).
\<close>

definition ec_double :: "int \<Rightarrow> point \<Rightarrow> point" where
  "ec_double p A =
     (if A = Point 0 0 \<or> (2 * py A) mod p = 0 then Point 0 0
      else (let lam = ((3 * px A * px A - 3) * inv_mod p (2 * py A)) mod p;
                x3 = (lam * lam - 2 * px A) mod p;
                y3 = (lam * (px A - x3) - py A) mod p
            in Point x3 y3))"

text \<open>
  Modelled from the spec: addition of two points (the chord rule; opposite points add
  up to the point at infinity, equal points are doubled).
\<close>

definition ec_add :: "int \<Rightarrow> point \<Rightarrow> point \<Rightarrow> point" where
  "ec_add p A B =
     (if A = Point 0 0 then B
      else if B = Point 0 0 then A
      else if (px A - px B) mod p = 0
        then (if (py A + py B) mod p = 0 then Point 0 0 else ec_double p A)
      else (let lam = ((py B - py A) * inv_mod p (px B - px A)) mod p;
                x3 = (lam * lam - px A - px B) mod p;
                y3 = (lam * (px A - x3) - py A) mod p
            in Point x3 y3))"

text \<open>
  Modelled from the spec: "scalar multiplication of a point by an integer", by doubling
  and adding along the binary digits of the scalar.
\<close>

fun ec_mul :: "int \<Rightarrow> nat \<Rightarrow> point \<Rightarrow> point" where
  "ec_mul p n A =
     (if n = 0 then Point 0 0
      else (let H = ec_mul p (n div 2) A; D = ec_double p H
            in if odd n then ec_add p D A else D))"

declare ec_mul.simps [simp del]

text \<open>
  Modelled from the spec: a provider from the field prime \<open>p\<close>, the coefficient \<open>b\<close>,
  the order \<open>q\<close> and the base point \<open>G\<close>. The scalar is reduced modulo the order; the
  square root is the closed form \<open>a\<^bsup>(p + 1) / 4\<^esup> mod p\<close> for a prime \<open>p\<close> that is 3
  modulo 4 (the spec: "returns a square root of a modulo the field prime if one exists").
\<close>

definition ec_provider :: "int \<Rightarrow> int \<Rightarrow> int \<Rightarrow> point \<Rightarrow> provider" where
  "ec_provider p b q G =
     \<lparr> P256_p = p, P256_b = b, P256_q = q, P256_G = G,
       point_mul = (\<lambda>k A. ec_mul p (nat (k mod q)) A),
       p256_mod_sqrt = (\<lambda>a. (a ^ nat ((p + 1) div 4)) mod p) \<rparr>"

text \<open>
  Modelled from the spec: "fixed curve P-256 with field prime p, order q, curve
  coefficient b, base point G", with the published constants of the curve (FIPS 186).
\<close>

definition P256 :: provider where
  "P256 = ec_provider
     0xffffffff00000001000000000000000000000000ffffffffffffffffffffffff
     0x5ac635d8aa3a93e7b3ebbd55769886bc651d06b0cc53b0f63bce3c3e27d2604b
     0xffffffff00000000ffffffffffffffffbce6faada7179e84f3b9cac2fc632551
     (Point 0x6b17d1f2e12c4247f8bce6e563a440f277037d812deb33a0f4a13945d898c296
            0x4fe342e2fe1a7f9b8ee7eb4a7c0f9e162bce33576b315ececbb6406837bf51f5)"

text \<open>
  A curve of the same shape over the integers modulo 11: \<open>y\<^sup>2 = x\<^sup>3 - 3x + 1\<close>, with
  17 points and base point \<open>(2, 5)\<close>; 11 is 3 modulo 4. It is small enough to run the
  program on.
\<close>

definition toy :: provider where
  "toy = ec_provider 11 1 17 (Point 2 5)"

text \<open>
  The small curve once more, with every x-coordinate that the scalar product returns
  shifted by \<open>2\<^sup>2\<^sup>4\<^sup>0 + 5 \<cdot> 2\<^sup>2\<^sup>0\<^sup>8 + 28\<close>, a multiple of 11 and of 17: the shifted
  coordinate is the same field element and the same scalar, but it is wider than 30
  bytes, so that the truncations of the program act on it.
\<close>

definition lift_x :: "int \<Rightarrow> point \<Rightarrow> point" where
  "lift_x L A = Point (px A + L) (py A)"

definition wide :: provider where
  "wide = toy\<lparr>point_mul := (\<lambda>k A. lift_x (2 ^ 240 + 5 * 2 ^ 208 + 28) (point_mul toy k A))\<rparr>"

section \<open>Notions used in the statements\<close>

text \<open>
  The right-hand side of the curve equation at \<open>x\<close>, reduced modulo \<open>p\<close> (the second
  value of \<open>y2\<close> in \<open>find_point_on_p256\<close>), and the curve equation itself.
\<close>

definition curve_rhs :: "provider \<Rightarrow> int \<Rightarrow> int" where
  "curve_rhs cv x = (x * x * x - 3 * x + P256_b cv) mod P256_p cv"

definition on_curve :: "provider \<Rightarrow> point \<Rightarrow> bool" where
  "on_curve cv pt \<longleftrightarrow>
     (py pt * py pt) mod P256_p cv
       = (px pt * px pt * px pt - 3 * px pt + P256_b cv) mod P256_p cv"

text \<open>
  The next output that \<open>gen_prediction\<close> predicts from a candidate point, and the
  test that a value of \<open>high_bits\<close> passes both checks of the loop body: its guess is
  accepted by \<open>find_point_on_p256\<close>, and the top 4 bytes of the predicted output are
  \<open>observed2\<close>.
\<close>

definition predicted_output :: "provider \<Rightarrow> point \<Rightarrow> int \<Rightarrow> point \<Rightarrow> int" where
  "predicted_output cv Qt d pt = take30bytes (px (point_mul cv (px (point_mul cv d pt)) Qt))"

definition verified :: "provider \<Rightarrow> int \<Rightarrow> int \<Rightarrow> point \<Rightarrow> int \<Rightarrow> nat \<Rightarrow> bool" where
  "verified cv observed1 observed2 Qt d h =
     (case find_point_on_p256 cv (push_bit 240 (int h) OR observed1) of
        None \<Rightarrow> False
      | Some pt \<Rightarrow> take4MSBytes (predicted_output cv Qt d pt) = observed2)"

text \<open>
  The same two notions in plain arithmetic, without the helper functions of the
  program. For a guess \<open>x\<close>, the candidate point is \<open>(x, y)\<close> with \<open>y\<close> the value of
  the square-root routine at \<open>x\<^sup>3 - 3x + b mod p\<close>; the predicted next output is the
  x-coordinate of \<open>(d \<cdot> (x, y)).x \<cdot> Q\<close> modulo \<open>2\<^sup>2\<^sup>4\<^sup>0\<close>, its low 30 bytes. A value of
  \<open>high_bits\<close> passes the checks when the candidate point of its guess
  \<open>(high_bits << 240) | observed1\<close> satisfies the curve equation and the predicted
  output divided by \<open>2\<^sup>2\<^sup>0\<^sup>8\<close>, its top 4 bytes, is \<open>observed2\<close>.
\<close>

definition predicted_next_output :: "provider \<Rightarrow> point \<Rightarrow> int \<Rightarrow> int \<Rightarrow> int" where
  "predicted_next_output cv Qt d guess =
     px (point_mul cv
           (px (point_mul cv d (Point guess (p256_mod_sqrt cv (curve_rhs cv guess))))) Qt)
       mod 2 ^ 240"

definition passes_checks :: "provider \<Rightarrow> int \<Rightarrow> int \<Rightarrow> point \<Rightarrow> int \<Rightarrow> nat \<Rightarrow> bool" where
  "passes_checks cv observed1 observed2 Qt d h \<longleftrightarrow>
     on_curve cv (Point (push_bit 240 (int h) OR observed1)
                        (p256_mod_sqrt cv (curve_rhs cv (push_bit 240 (int h) OR observed1))))
     \<and> predicted_next_output cv Qt d (push_bit 240 (int h) OR observed1) div 2 ^ 208 = observed2"

text \<open>
  The output sequence as the spec describes the generator, a function of the seed and
  the two points only: each step computes the x-coordinate \<open>s\<close> of \<open>seed \<cdot> P\<close>, makes it
  the seed, and puts out the low 30 bytes of the x-coordinate of \<open>s \<cdot> Q\<close>.
\<close>

fun spec_outputs :: "provider \<Rightarrow> int \<Rightarrow> point \<Rightarrow> point \<Rightarrow> nat \<Rightarrow> int list" where
  "spec_outputs cv s Pt Qt 0 = []"
| "spec_outputs cv s Pt Qt (Suc n) =
     (px (point_mul cv (px (point_mul cv s Pt)) Qt) mod 2 ^ 240)
       # spec_outputs cv (px (point_mul cv s Pt)) Pt Qt n"

text \<open>
  The number of times the body of the \<open>for\<close> loop runs: the loop of
  \<open>prediction_loop\<close>, counting instead of returning.
\<close>

fun loop_iterations :: "provider \<Rightarrow> int \<Rightarrow> int \<Rightarrow> point \<Rightarrow> int \<Rightarrow> nat list \<Rightarrow> nat" where
  "loop_iterations cv observed1 observed2 Qt d [] = 0"
| "loop_iterations cv observed1 observed2 Qt d (high_bits # rest) =
     (case try_high_bits cv observed1 observed2 Qt d (int high_bits) of
        Some v \<Rightarrow> 1
      | None \<Rightarrow> 1 + loop_iterations cv observed1 observed2 Qt d rest)"

section \<open>Truncation\<close>

lemma take30bytes_take_bit: "take30bytes x = take_bit 240 x"
  by (simp add: take30bytes_def take_bit_eq_mask mask_eq_exp_minus_1)

lemma take26bytes_take_bit: "take26bytes x = take_bit 208 x"
  by (simp add: take26bytes_def take_bit_eq_mask mask_eq_exp_minus_1)

lemma take4MSBytes_drop_bit: "take4MSBytes x = drop_bit 208 x"
  by (simp add: take4MSBytes_def)

lemma split_join: "push_bit n (drop_bit n x) OR take_bit n x = (x::int)"
  by (rule bit_eqI) (auto simp add: bit_or_iff bit_push_bit_iff bit_drop_bit_eq bit_take_bit_iff)

lemma drop_bit_208_bound:
  assumes "0 \<le> x" and "x < 2 ^ 240"
  shows "drop_bit 208 (x::int) < 2 ^ 32"
proof -
  have "take_bit 240 x = x"
    using assms by (simp add: take_bit_int_eq_self)
  then have "drop_bit 208 x = drop_bit 208 (take_bit (208 + 32) x)" by simp
  also have "\<dots> = take_bit 32 (drop_bit 208 x)"
    by (simp only: drop_bit_take_bit) simp
  finally show ?thesis
    by (metis take_bit_int_less_exp)
qed

lemma drop_bit_240_bound:
  assumes "0 \<le> x" and "x < 2 ^ 256"
  shows "drop_bit 240 (x::int) < 2 ^ 16"
proof -
  have "take_bit 256 x = x"
    using assms by (simp add: take_bit_int_eq_self)
  then have "drop_bit 240 x = drop_bit 240 (take_bit (240 + 16) x)" by simp
  also have "\<dots> = take_bit 16 (drop_bit 240 x)"
    by (simp only: drop_bit_take_bit) simp
  finally show ?thesis
    by (metis take_bit_int_less_exp)
qed

lemma take30bytes_range: "0 \<le> take30bytes x \<and> take30bytes x < 2 ^ 240"
  unfolding take30bytes_take_bit
  using take_bit_nonnegative [of 240 x] take_bit_int_less_exp [of 240 x] by blast

lemma take26bytes_range: "0 \<le> take26bytes x \<and> take26bytes x < 2 ^ 208"
  unfolding take26bytes_take_bit
  using take_bit_nonnegative [of 208 x] take_bit_int_less_exp [of 208 x] by blast

text \<open>The three truncations in arithmetic terms.\<close>

lemma take30bytes_mod: "take30bytes x = x mod 2 ^ 240"
  by (simp only: take30bytes_take_bit take_bit_eq_mod)

lemma take26bytes_mod: "take26bytes x = x mod 2 ^ 208"
  by (simp only: take26bytes_take_bit take_bit_eq_mod)

lemma take4MSBytes_div: "take4MSBytes x = x div 2 ^ 208"
  by (simp only: take4MSBytes_drop_bit drop_bit_eq_div)

text \<open>
  Claim C10. For every integer \<open>x\<close> with \<open>0 \<le> x < 2\<^sup>2\<^sup>4\<^sup>0\<close>, shifting
  \<open>take4MSBytes x\<close> left by 208 bits and or-ing \<open>take26bytes x\<close> onto it gives \<open>x\<close>
  back; \<open>take26bytes x\<close> is below \<open>2\<^sup>2\<^sup>0\<^sup>8\<close> and \<open>take4MSBytes x\<close> is below
  \<open>2\<^sup>3\<^sup>2\<close>: the 4 observed bytes and the 26 predicted bytes partition a 30-byte output.
\<close>

theorem truncation_decomposition:
  assumes "0 \<le> x" and "x < 2 ^ 240"
  shows "push_bit 208 (take4MSBytes x) OR take26bytes x = x
       \<and> 0 \<le> take26bytes x \<and> take26bytes x < 2 ^ 208
       \<and> 0 \<le> take4MSBytes x \<and> take4MSBytes x < 2 ^ 32"
proof -
  have "push_bit 208 (take4MSBytes x) OR take26bytes x = x"
    by (simp only: take4MSBytes_drop_bit take26bytes_take_bit split_join)
  moreover have "0 \<le> take26bytes x \<and> take26bytes x < 2 ^ 208"
    by (rule take26bytes_range)
  moreover have "0 \<le> take4MSBytes x"
    using assms(1) by (simp add: take4MSBytes_drop_bit)
  moreover have "take4MSBytes x < 2 ^ 32"
    using assms by (simp only: take4MSBytes_drop_bit drop_bit_208_bound)
  ultimately show ?thesis by simp
qed

text \<open>The decomposition at \<open>x = 2\<^sup>2\<^sup>3\<^sup>9 + 5\<close>.\<close>

theorem truncation_decomposition_witness:
  "push_bit 208 (take4MSBytes (2 ^ 239 + 5)) OR take26bytes (2 ^ 239 + 5) = 2 ^ 239 + 5
   \<and> take4MSBytes (2 ^ 239 + 5) = 2 ^ 31 \<and> take26bytes (2 ^ 239 + 5) = 5"
proof -
  have a: "(0::int) \<le> 2 ^ 239 + 5" by simp
  have b: "(2::int) ^ 239 + 5 < 2 ^ 240" by simp
  have c: "take4MSBytes (2 ^ 239 + 5) = 2 ^ 31"
    by (simp add: take4MSBytes_def drop_bit_eq_div)
  have d: "take26bytes (2 ^ 239 + 5) = 5"
    by (simp add: take26bytes_take_bit take_bit_eq_mod)
  from truncation_decomposition [OF a b] c d show ?thesis by simp
qed

section \<open>The generator step\<close>

text \<open>
  Claim C3. A call of \<open>genbits\<close> with current seed \<open>t\<close> computes \<open>s\<close>, the
  x-coordinate of \<open>t \<cdot> P\<close>, stores \<open>s\<close> as the new seed, computes \<open>r\<close>, the
  x-coordinate of \<open>s \<cdot> Q\<close>, and returns \<open>r\<close> masked to its low 240 bits; the returned
  output is therefore a non-negative integer below \<open>2\<^sup>2\<^sup>4\<^sup>0\<close>.
\<close>

theorem genbits_contract:
  "genbits cv self =
     (take30bytes (px (point_mul cv (px (point_mul cv (seed self) (P self))) (Q self))),
      self\<lparr>seed := px (point_mul cv (seed self) (P self))\<rparr>)
   \<and> fst (genbits cv self)
       = px (point_mul cv (seed (snd (genbits cv self))) (Q self)) AND (2 ^ 240 - 1)
   \<and> 0 \<le> fst (genbits cv self) \<and> fst (genbits cv self) < 2 ^ 240"
proof -
  have step: "genbits cv self =
     (take30bytes (px (point_mul cv (px (point_mul cv (seed self) (P self))) (Q self))),
      self\<lparr>seed := px (point_mul cv (seed self) (P self))\<rparr>)"
    by (simp add: genbits_def Let_def)
  have mask: "fst (genbits cv self)
       = px (point_mul cv (seed (snd (genbits cv self))) (Q self)) AND (2 ^ 240 - 1)"
    by (simp add: step take30bytes_def)
  have out: "fst (genbits cv self) =
      take30bytes (px (point_mul cv (px (point_mul cv (seed self) (P self))) (Q self)))"
    by (simp add: step)
  have "0 \<le> fst (genbits cv self) \<and> fst (genbits cv self) < 2 ^ 240"
    unfolding out by (rule take30bytes_range)
  with step mask show ?thesis by blast
qed

lemma genbits_seed: "seed (snd (genbits cv self)) = px (point_mul cv (seed self) (P self))"
  by (simp add: genbits_def Let_def)

lemma genbits_frame: "snd (genbits cv self) = self\<lparr>seed := seed (snd (genbits cv self))\<rparr>"
  by (simp add: genbits_def Let_def)

lemma genbits_n_frame:
  "snd (genbits_n cv n self) = self\<lparr>seed := seed (snd (genbits_n cv n self))\<rparr>"
proof (induction n arbitrary: self)
  case 0
  show ?case by simp
next
  case (Suc n)
  obtain r self' where g: "genbits cv self = (r, self')" by (cases "genbits cv self")
  obtain rs self'' where gn: "genbits_n cv n self' = (rs, self'')" by (cases "genbits_n cv n self'")
  have 1: "self' = self\<lparr>seed := seed self'\<rparr>" using genbits_frame [of cv self] g by simp
  have 2: "self'' = self'\<lparr>seed := seed self''\<rparr>" using Suc.IH [of self'] gn by simp
  have "self'' = self\<lparr>seed := seed self''\<rparr>"
    by (subst 2, subst 1) simp
  then show ?case using g gn by simp
qed

text \<open>
  Claim C9. Any number of calls of \<open>genbits\<close> changes only the attribute \<open>seed\<close> of
  the object: the final object is the initial one with another seed, so \<open>P\<close> and \<open>Q\<close>
  (and any further attribute) are what they were.
\<close>

theorem genbits_frame_property:
  "snd (genbits_n cv n self) = self\<lparr>seed := seed (snd (genbits_n cv n self))\<rparr>
   \<and> P (snd (genbits_n cv n self)) = P self
   \<and> Q (snd (genbits_n cv n self)) = Q self
   \<and> DualEC.more (snd (genbits_n cv n self)) = DualEC.more self"
proof -
  have f: "snd (genbits_n cv n self) = self\<lparr>seed := seed (snd (genbits_n cv n self))\<rparr>"
    by (rule genbits_n_frame)
  have "P (snd (genbits_n cv n self)) = P self" by (subst f) simp
  moreover have "Q (snd (genbits_n cv n self)) = Q self" by (subst f) simp
  moreover have "DualEC.more (snd (genbits_n cv n self)) = DualEC.more self" by (subst f) simp
  ultimately show ?thesis using f by simp
qed

text \<open>The outputs of the program are the sequence of the spec.\<close>

lemma genbits_n_outputs:
  "fst (genbits_n cv n self) = spec_outputs cv (seed self) (P self) (Q self) n"
proof (induction n arbitrary: self)
  case 0
  show ?case by simp
next
  case (Suc n)
  let ?s = "px (point_mul cv (seed self) (P self))"
  have g: "genbits cv self = (px (point_mul cv ?s (Q self)) mod 2 ^ 240, self\<lparr>seed := ?s\<rparr>)"
    by (simp only: genbits_def Let_def take30bytes_mod) simp
  have "fst (genbits_n cv (Suc n) self)
      = (px (point_mul cv ?s (Q self)) mod 2 ^ 240) # fst (genbits_n cv n (self\<lparr>seed := ?s\<rparr>))"
    by (simp only: genbits_n.simps g Let_def split_beta fst_conv snd_conv prod.case)
  also have "fst (genbits_n cv n (self\<lparr>seed := ?s\<rparr>))
      = spec_outputs cv ?s (P self) (Q self) n"
    by (simp only: Suc.IH) simp
  finally show ?case by (simp only: spec_outputs.simps)
qed

text \<open>
  Claim C8. The sequence of outputs of any number of \<open>genbits\<close> calls is a function
  of the initial seed and of \<open>P\<close> and \<open>Q\<close> alone: it is the sequence that the spec
  describes, computed from these three values and nothing else of the object.
  Consequently two runs that start from the same seed with the same \<open>P\<close> and \<open>Q\<close>
  produce identical output sequences, whatever else the two objects carry.
\<close>

theorem genbits_deterministic:
  "fst (genbits_n cv n self) = spec_outputs cv (seed self) (P self) (Q self) n
   \<and> (\<forall>other :: 'b DualEC_scheme.
         seed other = seed self \<and> P other = P self \<and> Q other = Q self \<longrightarrow>
         fst (genbits_n cv n other) = fst (genbits_n cv n self))"
proof (intro conjI allI impI)
  show "fst (genbits_n cv n self) = spec_outputs cv (seed self) (P self) (Q self) n"
    by (rule genbits_n_outputs)
next
  fix other :: "'b DualEC_scheme"
  assume "seed other = seed self \<and> P other = P self \<and> Q other = Q self"
  then show "fst (genbits_n cv n other) = fst (genbits_n cv n self)"
    by (simp only: genbits_n_outputs)
qed

text \<open>
  Two calls on the small curve with wide coordinates, from seed 3 with \<open>P = (2, 5)\<close>
  and \<open>Q = (6, 1)\<close>: the x-coordinates \<open>2\<^sup>2\<^sup>4\<^sup>0 + 5 \<cdot> 2\<^sup>2\<^sup>0\<^sup>8 + 38\<close> and
  \<open>2\<^sup>2\<^sup>4\<^sup>0 + 5 \<cdot> 2\<^sup>2\<^sup>0\<^sup>8 + 32\<close> lose their bit 240 in the output.
\<close>

lemma wide_outputs:
  "spec_outputs wide 3 (Point 2 5) (Point 6 1) (Suc (Suc 0))
     = [5 * 2 ^ 208 + 38, 5 * 2 ^ 208 + 32]"
  by code_simp


text \<open>
  The run on a plain object gives these two outputs, and the run on an object with an
  extra attribute gives the same.
\<close>

theorem genbits_deterministic_witness:
  "fst (genbits_n wide (Suc (Suc 0)) \<lparr>seed = 3, P = Point 2 5, Q = Point 6 1\<rparr>)
     = [5 * 2 ^ 208 + 38, 5 * 2 ^ 208 + 32]
   \<and> fst (genbits_n wide (Suc (Suc 0)) \<lparr>seed = 3, P = Point 2 5, Q = Point 6 1, \<dots> = True\<rparr>)
     = fst (genbits_n wide (Suc (Suc 0)) \<lparr>seed = 3, P = Point 2 5, Q = Point 6 1\<rparr>)"
proof -
  let ?self = "\<lparr>seed = 3, P = Point 2 5, Q = Point 6 1\<rparr>"
  let ?other = "\<lparr>seed = 3, P = Point 2 5, Q = Point 6 1, \<dots> = True\<rparr>"
  note d = genbits_deterministic [of wide "Suc (Suc 0)" ?self]
  from d have "fst (genbits_n wide (Suc (Suc 0)) ?self)
      = spec_outputs wide (seed ?self) (P ?self) (Q ?self) (Suc (Suc 0))"
    by (rule conjunct1)
  then have out: "fst (genbits_n wide (Suc (Suc 0)) ?self) = [5 * 2 ^ 208 + 38, 5 * 2 ^ 208 + 32]"
    by (simp only: DualEC.simps wide_outputs)
  from d have "\<forall>other :: bool DualEC_scheme.
         seed other = seed ?self \<and> P other = P ?self \<and> Q other = Q ?self \<longrightarrow>
         fst (genbits_n wide (Suc (Suc 0)) other) = fst (genbits_n wide (Suc (Suc 0)) ?self)"
    by (rule conjunct2)
  then have "seed ?other = seed ?self \<and> P ?other = P ?self \<and> Q ?other = Q ?self \<longrightarrow>
         fst (genbits_n wide (Suc (Suc 0)) ?other) = fst (genbits_n wide (Suc (Suc 0)) ?self)"
    by (rule spec)
  then have same: "fst (genbits_n wide (Suc (Suc 0)) ?other) = fst (genbits_n wide (Suc (Suc 0)) ?self)"
    by simp
  show ?thesis by (intro conjI) (rule out, rule same)
qed

section \<open>The width of the seed\<close>

text \<open>The base point of \<open>P256\<close> satisfies the curve equation with these constants.\<close>

lemma P256_base_point_on_curve: "on_curve P256 (P256_G P256)"
proof -
  let ?p = "0xffffffff00000001000000000000000000000000ffffffffffffffffffffffff :: int"
  let ?b = "0x5ac635d8aa3a93e7b3ebbd55769886bc651d06b0cc53b0f63bce3c3e27d2604b :: int"
  let ?x = "0x6b17d1f2e12c4247f8bce6e563a440f277037d812deb33a0f4a13945d898c296 :: int"
  let ?y = "0x4fe342e2fe1a7f9b8ee7eb4a7c0f9e162bce33576b315ececbb6406837bf51f5 :: int"
  have "?x * ?x * ?x - 3 * ?x + ?b = ?y * ?y + 0x12bdd1ad23dfc833dccf5f6141d6bb4a1f365dc1430b0e600b52dd851938d2d6933106a72efbf035fdaf43963b37fd5456e90c6581a8fb7a0d8a46a3629f0458 * ?p"
    by simp
  then have "(?x * ?x * ?x - 3 * ?x + ?b) mod ?p = (?y * ?y + 0x12bdd1ad23dfc833dccf5f6141d6bb4a1f365dc1430b0e600b52dd851938d2d6933106a72efbf035fdaf43963b37fd5456e90c6581a8fb7a0d8a46a3629f0458 * ?p) mod ?p"
    by (rule arg_cong)
  also have "\<dots> = (?y * ?y) mod ?p"
    by (rule mod_mult_self1)
  finally show ?thesis
    by (simp only: on_curve_def P256_def ec_provider_def provider.simps point.sel)
qed

text \<open>The product of the scalar 1 and the base point is the base point.\<close>

lemma P256_mul_one: "point_mul P256 1 (P256_G P256) = P256_G P256"
  by (simp add: P256_def ec_provider_def ec_mul.simps ec_double_def ec_add_def)

text \<open>
  Claim C7, as stated, says that the seed stays below \<open>2\<^sup>2\<^sup>4\<^sup>0\<close> after every call. On
  P-256, with \<open>P\<close> the base point and the seed 1 (which is below \<open>2\<^sup>2\<^sup>4\<^sup>0\<close>), one call
  stores the x-coordinate of the base point, which is not below \<open>2\<^sup>2\<^sup>4\<^sup>0\<close>.
\<close>

theorem seed_width_counterexample:
  "(1::int) < 2 ^ 240 \<and>
   \<not> seed (snd (genbits P256 \<lparr>seed = 1, P = P256_G P256, Q = P256_G P256\<rparr>)) < 2 ^ 240"
proof -
  have "seed (snd (genbits P256 \<lparr>seed = 1, P = P256_G P256, Q = P256_G P256\<rparr>))
        = px (P256_G P256)"
    by (simp add: genbits_seed P256_mul_one)
  also have "\<dots> = 0x6b17d1f2e12c4247f8bce6e563a440f277037d812deb33a0f4a13945d898c296"
    by (simp add: P256_def ec_provider_def)
  finally show ?thesis by simp
qed

text \<open>
  A provider built by \<open>ec_provider\<close> returns reduced coordinates: the x-coordinate of a
  multiple of a point with a reduced x-coordinate lies in \<open>[0, p)\<close>.
\<close>

lemma ec_double_reduced: "0 < p \<Longrightarrow> 0 \<le> px (ec_double p A) \<and> px (ec_double p A) < p"
  by (simp add: ec_double_def Let_def)

lemma ec_add_reduced:
  assumes "0 < p" and "0 \<le> px A \<and> px A < p" and "0 \<le> px B \<and> px B < p"
  shows "0 \<le> px (ec_add p A B) \<and> px (ec_add p A B) < p"
  using assms by (simp add: ec_add_def Let_def ec_double_reduced)

lemma ec_mul_reduced:
  assumes p: "0 < p" and A: "0 \<le> px A \<and> px A < p"
  shows "0 \<le> px (ec_mul p n A) \<and> px (ec_mul p n A) < p"
proof (induction n rule: less_induct)
  case (less n)
  show ?case
  proof (cases "n = 0")
    case True
    with p show ?thesis by (simp add: ec_mul.simps [of p 0 A])
  next
    case False
    then have "n div 2 < n" by simp
    let ?D = "ec_double p (ec_mul p (n div 2) A)"
    have D: "0 \<le> px ?D \<and> px ?D < p" using p by (rule ec_double_reduced)
    have "ec_mul p n A = (if odd n then ec_add p ?D A else ?D)"
      using False by (simp add: ec_mul.simps [of p n A] Let_def)
    with D ec_add_reduced [OF p D A] show ?thesis by simp
  qed
qed

lemma ec_provider_reduced:
  assumes "0 < p" and "0 \<le> px A \<and> px A < p"
  shows "0 \<le> px (point_mul (ec_provider p b q G) k A)
       \<and> px (point_mul (ec_provider p b q G) k A) < P256_p (ec_provider p b q G)"
  using ec_mul_reduced [OF assms] by (simp add: ec_provider_def)

text \<open>The seed after one more call, from the seed before it.\<close>

lemma genbits_n_Suc_seed:
  "seed (snd (genbits_n cv (Suc n) self))
     = px (point_mul cv (seed (snd (genbits_n cv n self))) (P self))"
proof (induction n arbitrary: self)
  case 0
  show ?case by (simp add: genbits_def Let_def split_beta)
next
  case (Suc n)
  obtain r self' where g: "genbits cv self = (r, self')" by (cases "genbits cv self")
  have P': "P self' = P self" using g by (auto simp add: genbits_def Let_def)
  have "seed (snd (genbits_n cv (Suc (Suc n)) self)) = seed (snd (genbits_n cv (Suc n) self'))"
    using g by (simp add: split_beta)
  also have "\<dots> = px (point_mul cv (seed (snd (genbits_n cv n self'))) (P self'))"
    by (rule Suc.IH)
  also have "seed (snd (genbits_n cv n self')) = seed (snd (genbits_n cv (Suc n) self))"
    using g by (simp add: split_beta)
  finally show ?case by (simp only: P')
qed

text \<open>
  Claim C7, amended. The seed is an integer that every call of \<open>genbits\<close> replaces
  with the whole x-coordinate of \<open>seed \<cdot> P\<close>, not truncated. With a curve library
  whose multiples of \<open>P\<close> have reduced coordinates, the seed after every call is a
  field element: not negative and below the field prime \<open>p\<close> (so below \<open>2\<^sup>2\<^sup>5\<^sup>6\<close>
  on P-256, 32 bytes rather than 30).
\<close>

theorem seed_after_genbits:
  assumes "\<forall>k. 0 \<le> px (point_mul cv k (P self)) \<and> px (point_mul cv k (P self)) < P256_p cv"
  shows "seed (snd (genbits_n cv (Suc n) self))
           = px (point_mul cv (seed (snd (genbits_n cv n self))) (P self))
       \<and> 0 \<le> seed (snd (genbits_n cv (Suc n) self))
       \<and> seed (snd (genbits_n cv (Suc n) self)) < P256_p cv"
proof -
  have step: "seed (snd (genbits_n cv (Suc n) self))
           = px (point_mul cv (seed (snd (genbits_n cv n self))) (P self))"
    by (rule genbits_n_Suc_seed)
  from assms have "0 \<le> px (point_mul cv (seed (snd (genbits_n cv n self))) (P self))
      \<and> px (point_mul cv (seed (snd (genbits_n cv n self))) (P self)) < P256_p cv"
    by (rule spec)
  with step show ?thesis by simp
qed

text \<open>
  On P-256 with \<open>P\<close> the base point and the seed 1: after the call the seed is the
  x-coordinate of the base point, below \<open>2\<^sup>2\<^sup>5\<^sup>6\<close>.
\<close>

lemma P256_constants:
  "P256_p P256 = 0xffffffff00000001000000000000000000000000ffffffffffffffffffffffff"
  "P256_G P256 = Point 0x6b17d1f2e12c4247f8bce6e563a440f277037d812deb33a0f4a13945d898c296
            0x4fe342e2fe1a7f9b8ee7eb4a7c0f9e162bce33576b315ececbb6406837bf51f5"
  by (simp_all add: P256_def ec_provider_def)

lemma P256_reduced:
  "0 \<le> px (point_mul P256 k (P256_G P256)) \<and> px (point_mul P256 k (P256_G P256)) < P256_p P256"
  unfolding P256_def by (rule ec_provider_reduced) (simp_all add: ec_provider_def)

theorem seed_after_genbits_witness:
  "seed (snd (genbits_n P256 (Suc 0) \<lparr>seed = 1, P = P256_G P256, Q = P256_G P256\<rparr>))
     = px (P256_G P256)
   \<and> seed (snd (genbits_n P256 (Suc 0) \<lparr>seed = 1, P = P256_G P256, Q = P256_G P256\<rparr>)) < 2 ^ 256"
proof -
  let ?self = "\<lparr>seed = 1, P = P256_G P256, Q = P256_G P256\<rparr>"
  have h: "\<forall>k. 0 \<le> px (point_mul P256 k (P ?self)) \<and> px (point_mul P256 k (P ?self)) < P256_p P256"
    using P256_reduced by simp
  from seed_after_genbits [OF h, of 0]
  have a: "seed (snd (genbits_n P256 (Suc 0) ?self)) = px (point_mul P256 1 (P256_G P256))"
    and b: "seed (snd (genbits_n P256 (Suc 0) ?self)) < P256_p P256"
    by simp_all
  have "P256_p P256 < 2 ^ 256" by (simp add: P256_constants)
  with a b show ?thesis by (simp add: P256_mul_one)
qed

section \<open>Curve membership test\<close>

text \<open>
  Claim C6. For every integer \<open>x\<close>, \<open>find_point_on_p256\<close> returns a point exactly
  when the square of the value that the square-root routine returns for
  \<open>x\<^sup>3 - 3x + b mod p\<close> is that quantity again modulo \<open>p\<close>, and \<open>None\<close> otherwise; a
  returned point has the x-coordinate \<open>x\<close>, that root as y-coordinate, and satisfies
  the curve equation.
\<close>

theorem find_point_on_p256_contract:
  "(find_point_on_p256 cv x \<noteq> None \<longleftrightarrow>
      (p256_mod_sqrt cv (curve_rhs cv x) * p256_mod_sqrt cv (curve_rhs cv x)) mod P256_p cv
        = curve_rhs cv x)
   \<and> (\<forall>pt. find_point_on_p256 cv x = Some pt \<longrightarrow>
         pt = Point x (p256_mod_sqrt cv (curve_rhs cv x)) \<and> on_curve cv pt)"
  by (auto simp add: find_point_on_p256_def curve_rhs_def on_curve_def Let_def)

text \<open>On the small curve: \<open>x = 2\<close> gives the point \<open>(2, 5)\<close>, \<open>x = 1\<close> gives no point.\<close>

theorem find_point_on_p256_contract_witness:
  "find_point_on_p256 toy 2 = Some (Point 2 5) \<and> on_curve toy (Point 2 5)
   \<and> find_point_on_p256 toy 1 = None
   \<and> (p256_mod_sqrt toy (curve_rhs toy 1) * p256_mod_sqrt toy (curve_rhs toy 1)) mod P256_p toy
        \<noteq> curve_rhs toy 1"
proof -
  have a: "find_point_on_p256 toy 2 = Some (Point 2 5)" by code_simp
  have b: "find_point_on_p256 toy 1 = None" by code_simp
  from find_point_on_p256_contract [of toy 2] a have "on_curve toy (Point 2 5)" by simp
  moreover from find_point_on_p256_contract [of toy 1] b
  have "(p256_mod_sqrt toy (curve_rhs toy 1) * p256_mod_sqrt toy (curve_rhs toy 1)) mod P256_p toy
        \<noteq> curve_rhs toy 1" by simp
  ultimately show ?thesis using a b by simp
qed

section \<open>The search of the predictor\<close>

lemma try_high_bits_Some:
  "try_high_bits cv o1 o2 Qt d (int h) = Some v \<longleftrightarrow>
     (\<exists>pt. find_point_on_p256 cv (push_bit 240 (int h) OR o1) = Some pt
        \<and> take4MSBytes (predicted_output cv Qt d pt) = o2
        \<and> v = take26bytes (predicted_output cv Qt d pt))"
  by (auto simp add: try_high_bits_def predicted_output_def Let_def split: option.splits)

lemma try_high_bits_None:
  "try_high_bits cv o1 o2 Qt d (int h) = None \<longleftrightarrow> \<not> verified cv o1 o2 Qt d h"
  by (auto simp add: try_high_bits_def verified_def predicted_output_def Let_def split: option.splits)

lemma prediction_loop_Inr:
  "prediction_loop cv o1 o2 Qt d hs = Inr v \<longleftrightarrow>
     (\<exists>i<length hs. try_high_bits cv o1 o2 Qt d (int (hs ! i)) = Some v
        \<and> (\<forall>j<i. try_high_bits cv o1 o2 Qt d (int (hs ! j)) = None))"
proof (induction hs)
  case Nil
  show ?case by simp
next
  case (Cons h hs)
  show ?case
  proof (cases "try_high_bits cv o1 o2 Qt d (int h)")
    case (Some w)
    have "(\<exists>i<length (h # hs). try_high_bits cv o1 o2 Qt d (int ((h # hs) ! i)) = Some v
        \<and> (\<forall>j<i. try_high_bits cv o1 o2 Qt d (int ((h # hs) ! j)) = None)) \<longleftrightarrow> w = v"
    proof
      assume "\<exists>i<length (h # hs). try_high_bits cv o1 o2 Qt d (int ((h # hs) ! i)) = Some v
        \<and> (\<forall>j<i. try_high_bits cv o1 o2 Qt d (int ((h # hs) ! j)) = None)"
      then obtain i where i: "try_high_bits cv o1 o2 Qt d (int ((h # hs) ! i)) = Some v"
        "\<forall>j<i. try_high_bits cv o1 o2 Qt d (int ((h # hs) ! j)) = None" by blast
      have "i = 0"
      proof (rule ccontr)
        assume "i \<noteq> 0"
        then have "0 < i" by simp
        with i(2) have "try_high_bits cv o1 o2 Qt d (int ((h # hs) ! 0)) = None" by blast
        with Some show False by simp
      qed
      with i(1) Some show "w = v" by simp
    next
      assume "w = v"
      with Some have "try_high_bits cv o1 o2 Qt d (int ((h # hs) ! 0)) = Some v" by simp
      then show "\<exists>i<length (h # hs). try_high_bits cv o1 o2 Qt d (int ((h # hs) ! i)) = Some v
        \<and> (\<forall>j<i. try_high_bits cv o1 o2 Qt d (int ((h # hs) ! j)) = None)"
        by (intro exI [of _ 0]) simp
    qed
    with Some show ?thesis by simp
  next
    case None
    have "(\<exists>i<length (h # hs). try_high_bits cv o1 o2 Qt d (int ((h # hs) ! i)) = Some v
        \<and> (\<forall>j<i. try_high_bits cv o1 o2 Qt d (int ((h # hs) ! j)) = None))
      \<longleftrightarrow> (\<exists>i<length hs. try_high_bits cv o1 o2 Qt d (int (hs ! i)) = Some v
        \<and> (\<forall>j<i. try_high_bits cv o1 o2 Qt d (int (hs ! j)) = None))" (is "?L \<longleftrightarrow> ?R")
    proof
      assume ?L
      then obtain i where i: "i < length (h # hs)"
        "try_high_bits cv o1 o2 Qt d (int ((h # hs) ! i)) = Some v"
        "\<forall>j<i. try_high_bits cv o1 o2 Qt d (int ((h # hs) ! j)) = None" by blast
      from i(2) None have "i \<noteq> 0" by (cases i) auto
      then obtain k where k: "i = Suc k" by (cases i) auto
      have "k < length hs" using i(1) k by simp
      moreover have "try_high_bits cv o1 o2 Qt d (int (hs ! k)) = Some v" using i(2) k by simp
      moreover have "\<forall>j<k. try_high_bits cv o1 o2 Qt d (int (hs ! j)) = None"
      proof (intro allI impI)
        fix j assume "j < k"
        then have "Suc j < i" using k by simp
        with i(3) have "try_high_bits cv o1 o2 Qt d (int ((h # hs) ! Suc j)) = None" by blast
        then show "try_high_bits cv o1 o2 Qt d (int (hs ! j)) = None" by simp
      qed
      ultimately show ?R by blast
    next
      assume ?R
      then obtain k where k: "k < length hs"
        "try_high_bits cv o1 o2 Qt d (int (hs ! k)) = Some v"
        "\<forall>j<k. try_high_bits cv o1 o2 Qt d (int (hs ! j)) = None" by blast
      have "\<forall>j<Suc k. try_high_bits cv o1 o2 Qt d (int ((h # hs) ! j)) = None"
      proof (intro allI impI)
        fix j assume j: "j < Suc k"
        show "try_high_bits cv o1 o2 Qt d (int ((h # hs) ! j)) = None"
        proof (cases j)
          case 0
          with None show ?thesis by simp
        next
          case (Suc m)
          with j have "m < k" by simp
          with k(3) Suc show ?thesis by simp
        qed
      qed
      with k(1,2) show ?L by (intro exI [of _ "Suc k"]) simp
    qed
    with None Cons.IH show ?thesis by simp
  qed
qed

lemma prediction_loop_Inl:
  "prediction_loop cv o1 o2 Qt d hs = Inl e \<longleftrightarrow>
     e = ValueError \<and> (\<forall>h\<in>set hs. try_high_bits cv o1 o2 Qt d (int h) = None)"
  by (induction hs) (auto split: option.splits)


lemma prediction_loop_upt_Inr:
  "prediction_loop cv o1 o2 Qt d [0..<n] = Inr v \<longleftrightarrow>
     (\<exists>h<n. try_high_bits cv o1 o2 Qt d (int h) = Some v
        \<and> (\<forall>h'<h. try_high_bits cv o1 o2 Qt d (int h') = None))"
proof -
  have "prediction_loop cv o1 o2 Qt d [0..<n] = Inr v \<longleftrightarrow>
     (\<exists>i<n. try_high_bits cv o1 o2 Qt d (int ([0..<n] ! i)) = Some v
        \<and> (\<forall>j<i. try_high_bits cv o1 o2 Qt d (int ([0..<n] ! j)) = None))"
    by (simp only: prediction_loop_Inr length_upt diff_zero)
  also have "\<dots> \<longleftrightarrow> (\<exists>h<n. try_high_bits cv o1 o2 Qt d (int h) = Some v
        \<and> (\<forall>h'<h. try_high_bits cv o1 o2 Qt d (int h') = None))"
    by (rule ex_cong) (auto simp only: nth_upt add_0 dest: less_trans)
  finally show ?thesis .
qed

lemma prediction_loop_upt_Inl:
  "prediction_loop cv o1 o2 Qt d [0..<n] = Inl e \<longleftrightarrow>
     e = ValueError \<and> (\<forall>h<n. try_high_bits cv o1 o2 Qt d (int h) = None)"
  by (simp only: prediction_loop_Inl set_upt atLeastLessThan_iff) auto

lemma find_point_on_p256_on_curve:
  "find_point_on_p256 cv x =
     (if on_curve cv (Point x (p256_mod_sqrt cv (curve_rhs cv x)))
      then Some (Point x (p256_mod_sqrt cv (curve_rhs cv x))) else None)"
  by (auto simp add: find_point_on_p256_def curve_rhs_def on_curve_def Let_def)

text \<open>
  One iteration of the loop in these terms: it returns, and returns the predicted
  output modulo \<open>2\<^sup>2\<^sup>0\<^sup>8\<close>, exactly when its \<open>high_bits\<close> passes the checks.
\<close>

lemma try_high_bits_passes:
  "try_high_bits cv observed1 observed2 Qt d (int h) =
     (if passes_checks cv observed1 observed2 Qt d h
      then Some (predicted_next_output cv Qt d (push_bit 240 (int h) OR observed1) mod 2 ^ 208)
      else None)"
proof -
  let ?g = "push_bit 240 (int h) OR observed1"
  let ?pt = "Point ?g (p256_mod_sqrt cv (curve_rhs cv ?g))"
  have g: "push_bit (8 * 30) (int h) OR observed1 = ?g" by simp
  show ?thesis
  proof (cases "on_curve cv ?pt")
    case False
    then have "find_point_on_p256 cv ?g = None" by (simp only: find_point_on_p256_on_curve if_False)
    moreover from False have "\<not> passes_checks cv observed1 observed2 Qt d h"
      by (simp only: passes_checks_def simp_thms)
    ultimately show ?thesis by (simp only: try_high_bits_def g Let_def option.case if_False)
  next
    case True
    then have fp: "find_point_on_p256 cv ?g = Some ?pt"
      by (simp only: find_point_on_p256_on_curve if_True)
    have out: "take30bytes (px (point_mul cv (px (point_mul cv d ?pt)) Qt))
        = predicted_next_output cv Qt d ?g"
      by (simp only: predicted_next_output_def take30bytes_mod)
    have pc: "passes_checks cv observed1 observed2 Qt d h \<longleftrightarrow>
        take4MSBytes (predicted_next_output cv Qt d ?g) = observed2"
      using True by (simp only: passes_checks_def take4MSBytes_div simp_thms)
    show ?thesis
      by (simp only: try_high_bits_def g Let_def fp option.case out pc take26bytes_mod)
  qed
qed

text \<open>
  Claim C4. \<open>gen_prediction\<close> returns \<open>v\<close> exactly when there is a \<open>high_bits\<close> value
  \<open>h\<close> in \<open>0, \<dots>, 65535\<close> such that the guess \<open>(h << 240) | observed1\<close> is the
  x-coordinate of a point that satisfies the curve equation (the point with the root
  that the square-root routine returns), the top 4 bytes of the predicted next output
  (the output divided by \<open>2\<^sup>2\<^sup>0\<^sup>8\<close>) equal \<open>observed2\<close>, no smaller \<open>high_bits\<close> value
  passes these two checks, and \<open>v\<close> is the low 26 bytes of that predicted output (the
  output modulo \<open>2\<^sup>2\<^sup>0\<^sup>8\<close>): candidates are taken in increasing order and the first one
  that passes decides.
\<close>

theorem gen_prediction_first_match:
  "gen_prediction cv observed1 observed2 Pt Qt d = Inr v \<longleftrightarrow>
     (\<exists>h<2 ^ 16.
        passes_checks cv observed1 observed2 Qt d h
        \<and> (\<forall>h'<h. \<not> passes_checks cv observed1 observed2 Qt d h')
        \<and> v = predicted_next_output cv Qt d (push_bit 240 (int h) OR observed1) mod 2 ^ 208)"
proof -
  have some: "try_high_bits cv observed1 observed2 Qt d (int h) = Some v \<longleftrightarrow>
      passes_checks cv observed1 observed2 Qt d h
      \<and> v = predicted_next_output cv Qt d (push_bit 240 (int h) OR observed1) mod 2 ^ 208" for h
    by (auto simp only: try_high_bits_passes split: if_splits)
  have none: "try_high_bits cv observed1 observed2 Qt d (int h) = None \<longleftrightarrow>
      \<not> passes_checks cv observed1 observed2 Qt d h" for h
    by (auto simp only: try_high_bits_passes split: if_splits)
  show ?thesis
    unfolding gen_prediction_def prediction_loop_upt_Inr some none by blast
qed

text \<open>
  A run on the small curve with wide coordinates, with \<open>observed1 = 1\<close>,
  \<open>observed2 = 5\<close>, \<open>Q = (6, 1)\<close> and \<open>d = 3\<close>. The guess for \<open>high_bits = 0\<close> is not
  on the curve. The guess for \<open>high_bits = 1\<close> is \<open>2\<^sup>2\<^sup>4\<^sup>0 + 1\<close>, which is on the curve;
  the x-coordinate computed from it is \<open>2\<^sup>2\<^sup>4\<^sup>0 + 5 \<cdot> 2\<^sup>2\<^sup>0\<^sup>8 + 38\<close>, so the predicted
  output is \<open>5 \<cdot> 2\<^sup>2\<^sup>0\<^sup>8 + 38\<close>, with top 4 bytes 5 and low 26 bytes 38.
\<close>

lemma wide_first_candidate: "\<not> passes_checks wide 1 5 (Point 6 1) 3 0"
  by code_simp

lemma wide_second_guess: "push_bit 240 (int 1) OR 1 = (2 ^ 240 + 1 :: int)"
  by simp

lemma wide_second_on_curve:
  "on_curve wide (Point (2 ^ 240 + 1) (p256_mod_sqrt wide (curve_rhs wide (2 ^ 240 + 1))))"
  by code_simp

lemma wide_second_untruncated:
  "px (point_mul wide
         (px (point_mul wide 3 (Point (2 ^ 240 + 1)
                (p256_mod_sqrt wide (curve_rhs wide (2 ^ 240 + 1)))))) (Point 6 1))
     = 2 ^ 240 + 5 * 2 ^ 208 + 38"
  by code_simp

lemma wide_second_output:
  "predicted_next_output wide (Point 6 1) 3 (2 ^ 240 + 1) = 5 * 2 ^ 208 + 38"
  by (simp only: predicted_next_output_def wide_second_untruncated) simp

lemma wide_second_candidate: "passes_checks wide 1 5 (Point 6 1) 3 1"
  by (simp only: passes_checks_def wide_second_guess wide_second_on_curve wide_second_output) simp

text \<open>In that run the second candidate is the first to pass, and the result is 38.\<close>

theorem gen_prediction_first_match_witness:
  "gen_prediction wide 1 5 (Point 2 5) (Point 6 1) 3 = Inr 38
   \<and> \<not> passes_checks wide 1 5 (Point 6 1) 3 0
   \<and> predicted_next_output wide (Point 6 1) 3 (2 ^ 240 + 1) = 5 * 2 ^ 208 + 38"
proof -
  have v: "(38::int) = predicted_next_output wide (Point 6 1) 3 (push_bit 240 (int 1) OR 1) mod 2 ^ 208"
    by (simp only: wide_second_guess wide_second_output) simp
  have prev: "\<forall>h'<1. \<not> passes_checks wide 1 5 (Point 6 1) 3 h'"
    using wide_first_candidate by simp
  have "(1::nat) < 2 ^ 16" by simp
  with wide_second_candidate prev v
  have "\<exists>h<2 ^ 16. passes_checks wide 1 5 (Point 6 1) 3 h
        \<and> (\<forall>h'<h. \<not> passes_checks wide 1 5 (Point 6 1) 3 h')
        \<and> 38 = predicted_next_output wide (Point 6 1) 3 (push_bit 240 (int h) OR 1) mod 2 ^ 208"
    by blast
  then have "gen_prediction wide 1 5 (Point 2 5) (Point 6 1) 3 = Inr 38"
    by (simp only: gen_prediction_first_match)
  with wide_first_candidate wide_second_output show ?thesis by blast
qed

text \<open>
  A run on the small curve with \<open>observed1 = 1\<close>, \<open>observed2 = 0\<close>, \<open>Q = (6, 1)\<close> and
  \<open>d = 3\<close>: the guess for \<open>high_bits = 1\<close> is on the curve and is verified.
\<close>

lemma toy_second_candidate:
  "find_point_on_p256 toy (push_bit 240 (int 1) OR 1) = Some (Point (2 ^ 240 + 1) 5)"
  by code_simp

lemma toy_second_output: "predicted_output toy (Point 6 1) 3 (Point (2 ^ 240 + 1) 5) = 10"
  by code_simp

lemma toy_second_verified: "verified toy 1 0 (Point 6 1) 3 1"
  by (simp only: verified_def toy_second_candidate toy_second_output option.case)
     (simp add: take4MSBytes_def drop_bit_eq_div)

lemma take4MSBytes_predicted_bound: "take4MSBytes (predicted_output cv Qt d pt) < 2 ^ 32"
  unfolding predicted_output_def take4MSBytes_drop_bit
  using take30bytes_range by (intro drop_bit_208_bound) blast+

lemma verified_out_of_range: "\<not> verified cv observed1 (2 ^ 32) Qt d h"
proof (cases "find_point_on_p256 cv (push_bit 240 (int h) OR observed1)")
  case None
  then show ?thesis by (simp add: verified_def)
next
  case (Some pt)
  have "take4MSBytes (predicted_output cv Qt d pt) \<noteq> 2 ^ 32"
    using take4MSBytes_predicted_bound [of cv Qt d pt] by linarith
  with Some show ?thesis by (simp only: verified_def option.case simp_thms)
qed

lemma loop_iterations_le: "loop_iterations cv o1 o2 Qt d hs \<le> length hs"
  by (induction hs) (auto split: option.splits)

lemma loop_iterations_exhausted:
  "prediction_loop cv o1 o2 Qt d hs = Inl e \<Longrightarrow> loop_iterations cv o1 o2 Qt d hs = length hs"
  by (induction hs) (auto split: option.splits)

lemma range_length: "length [0..<2 ^ 16] = (65536::nat)"
  by (simp only: length_upt) simp

text \<open>
  Claim C5. \<open>gen_prediction\<close> raises exactly when none of the 65536 values of
  \<open>high_bits\<close> in \<open>[0, 2\<^sup>1\<^sup>6)\<close> passes both the curve-membership test and the 4-byte
  comparison; the only error it raises is \<open>ValueError\<close>; and when it returns a value,
  some candidate in that range was verified, so exhaustion never yields a value. The
  loop body runs at most 65536 times, and exactly 65536 times when the search is
  exhausted.
\<close>

theorem gen_prediction_exhaustion:
  "(gen_prediction cv observed1 observed2 Pt Qt d = Inl ValueError \<longleftrightarrow>
      (\<forall>h<2 ^ 16. \<not> verified cv observed1 observed2 Qt d h))
   \<and> (\<forall>e. gen_prediction cv observed1 observed2 Pt Qt d = Inl e \<longrightarrow> e = ValueError)
   \<and> (\<forall>v. gen_prediction cv observed1 observed2 Pt Qt d = Inr v \<longrightarrow>
         (\<exists>h<2 ^ 16. verified cv observed1 observed2 Qt d h))
   \<and> loop_iterations cv observed1 observed2 Qt d [0..<2 ^ 16] \<le> 65536
   \<and> (gen_prediction cv observed1 observed2 Pt Qt d = Inl ValueError \<longrightarrow>
         loop_iterations cv observed1 observed2 Qt d [0..<2 ^ 16] = 65536)"
proof (intro conjI allI impI)
  show "gen_prediction cv observed1 observed2 Pt Qt d = Inl ValueError \<longleftrightarrow>
      (\<forall>h<2 ^ 16. \<not> verified cv observed1 observed2 Qt d h)"
    unfolding gen_prediction_def prediction_loop_upt_Inl try_high_bits_None by simp
next
  fix e assume "gen_prediction cv observed1 observed2 Pt Qt d = Inl e"
  then show "e = ValueError"
    unfolding gen_prediction_def prediction_loop_upt_Inl by simp
next
  fix v assume "gen_prediction cv observed1 observed2 Pt Qt d = Inr v"
  then obtain h where h: "h < 2 ^ 16" "try_high_bits cv observed1 observed2 Qt d (int h) = Some v"
    unfolding gen_prediction_def prediction_loop_upt_Inr by blast
  from h(2) have "verified cv observed1 observed2 Qt d h"
    using try_high_bits_None [of cv observed1 observed2 Qt d h] by simp
  with h(1) show "\<exists>h<2 ^ 16. verified cv observed1 observed2 Qt d h" by blast
next
  show "loop_iterations cv observed1 observed2 Qt d [0..<2 ^ 16] \<le> 65536"
    using loop_iterations_le [of cv observed1 observed2 Qt d "[0..<2 ^ 16]"]
    by (simp only: range_length)
next
  assume "gen_prediction cv observed1 observed2 Pt Qt d = Inl ValueError"
  then have "prediction_loop cv observed1 observed2 Qt d [0..<2 ^ 16] = Inl ValueError"
    by (simp only: gen_prediction_def)
  from loop_iterations_exhausted [OF this]
  show "loop_iterations cv observed1 observed2 Qt d [0..<2 ^ 16] = 65536"
    by (simp only: range_length)
qed

text \<open>
  On the small curve: with \<open>observed2 = 2\<^sup>3\<^sup>2\<close>, which no 4-byte value equals, the
  search is exhausted and raises; with \<open>observed2 = 0\<close> it does not.
\<close>

theorem gen_prediction_exhaustion_witness:
  "gen_prediction toy 1 (2 ^ 32) (Point 2 5) (Point 6 1) 3 = Inl ValueError
   \<and> gen_prediction toy 1 0 (Point 2 5) (Point 6 1) 3 \<noteq> Inl ValueError"
proof -
  have "\<forall>h<2 ^ 16. \<not> verified toy 1 (2 ^ 32) (Point 6 1) 3 h"
    by (simp only: verified_out_of_range simp_thms)
  then have a: "gen_prediction toy 1 (2 ^ 32) (Point 2 5) (Point 6 1) 3 = Inl ValueError"
    using gen_prediction_exhaustion [of toy 1 "2 ^ 32" "Point 2 5" "Point 6 1" 3] by blast
  have "\<not> (\<forall>h<2 ^ 16. \<not> verified toy 1 0 (Point 6 1) 3 h)"
  proof
    assume "\<forall>h<2 ^ 16. \<not> verified toy 1 0 (Point 6 1) 3 h"
    moreover have "(1::nat) < 2 ^ 16" by simp
    ultimately have "\<not> verified toy 1 0 (Point 6 1) 3 1" by blast
    with toy_second_verified show False by blast
  qed
  then have "gen_prediction toy 1 0 (Point 2 5) (Point 6 1) 3 \<noteq> Inl ValueError"
    using gen_prediction_exhaustion [of toy 1 0 "Point 2 5" "Point 6 1" 3] by blast
  with a show ?thesis by blast
qed

section \<open>Properties of the backdoor construction\<close>










text \<open>
  On P-256 the product of the order and any point is the point at infinity, which is
  not the base point: with \<open>d = q\<close> the sanity check fails for every \<open>Q\<close>.
\<close>

lemma P256_order_times: "point_mul P256 (P256_q P256) Qt = Point 0 0"
  by (simp add: P256_def ec_provider_def ec_mul.simps [of _ 0 _])

lemma P256_base_point_not_infinity: "P256_G P256 \<noteq> Point 0 0"
  by (simp add: P256_def ec_provider_def)

lemma P256_sanity_check_at_order:
  "backdoor_sanity_check P256 (P256_G P256) Qt (P256_q P256) = Inl AssertionError"
  using P256_base_point_not_infinity
  by (simp add: backdoor_sanity_check_def P256_order_times)





section \<open>The round trip\<close>

text \<open>A verified candidate in range makes the search return a value.\<close>

lemma prediction_loop_upt_returns:
  assumes "h < n" and "try_high_bits cv o1 o2 Qt d (int h) \<noteq> None"
  shows "\<exists>v. prediction_loop cv o1 o2 Qt d [0..<n] = Inr v"
proof (cases "prediction_loop cv o1 o2 Qt d [0..<n]")
  case (Inl e)
  then have "e = ValueError \<and> (\<forall>h<n. try_high_bits cv o1 o2 Qt d (int h) = None)"
    by (rule prediction_loop_upt_Inl [THEN iffD1])
  then have "\<forall>h<n. try_high_bits cv o1 o2 Qt d (int h) = None"
    by (rule conjunct2)
  with assms(1) have "try_high_bits cv o1 o2 Qt d (int h) = None" by simp
  with assms(2) show ?thesis by simp
next
  case (Inr v)
  then show ?thesis by simp
qed

text \<open>Two consecutive calls of \<open>genbits\<close>, written out.\<close>

lemma genbits_twice:
  "genbits_n cv 2 self =
     ([take30bytes (px (point_mul cv (px (point_mul cv (seed self) (P self))) (Q self))),
       take30bytes (px (point_mul cv
          (px (point_mul cv (px (point_mul cv (seed self) (P self))) (P self))) (Q self)))],
      self\<lparr>seed := px (point_mul cv (px (point_mul cv (seed self) (P self))) (P self))\<rparr>)"
  by (simp add: numeral_2_eq_2 genbits_def Let_def)

text \<open>
  The round trip, under what it needs from the curve arithmetic. Let \<open>s1\<close> be the seed
  after the first call, \<open>r1\<close> the x-coordinate of \<open>s1 \<cdot> Q\<close> (the first output before
  truncation) and \<open>s2\<close> the seed after the second call. Suppose \<open>r1\<close> is a 256-bit
  value, \<open>find_point_on_p256\<close> accepts it, and multiplying the point found by \<open>d\<close>
  gives a point with x-coordinate \<open>s2\<close> (which is what \<open>P = d \<cdot> Q\<close> means for the
  curve group). Then the predictor, given the first output and the top 4 bytes of the
  second, returns a value; and if no smaller \<open>high_bits\<close> value than the true one
  passes both checks, that value is the low 26 bytes of the second output.
\<close>

lemma round_trip:
  fixes cv :: provider and self :: "'a DualEC_scheme" and d :: int
  defines "s1 \<equiv> px (point_mul cv (seed self) (P self))"
  defines "r1 \<equiv> px (point_mul cv s1 (Q self))"
  defines "s2 \<equiv> px (point_mul cv s1 (P self))"
  assumes run: "fst (genbits_n cv 2 self) = [bits1, bits2]"
    and range: "0 \<le> r1" "r1 < 2 ^ 256"
    and curve_pt: "find_point_on_p256 cv r1 = Some pt"
    and rel: "px (point_mul cv d pt) = s2"
  shows "\<exists>v. gen_prediction cv bits1 (drop_bit (26 * 8) bits2) (P self) (Q self) d = Inr v"
    and "(\<forall>h<nat (drop_bit 240 r1). \<not> verified cv bits1 (drop_bit (26 * 8) bits2) (Q self) d h)
         \<Longrightarrow> gen_prediction cv bits1 (drop_bit (26 * 8) bits2) (P self) (Q self) d
             = Inr (bits2 AND (2 ^ (8 * 26) - 1))"
proof -
  let ?h = "nat (drop_bit 240 r1)"
  let ?o2 = "drop_bit (26 * 8) bits2"
  from run have b1: "bits1 = take30bytes r1" and b2: "bits2 = take30bytes (px (point_mul cv s2 (Q self)))"
    by (simp_all add: genbits_twice s1_def r1_def s2_def)
  have nn: "0 \<le> drop_bit 240 r1" using range(1) by simp
  have hlt: "?h < 2 ^ 16"
    using drop_bit_240_bound [OF range] nn by (simp add: nat_less_iff)
  have guess: "push_bit 240 (int ?h) OR bits1 = r1"
    using nn by (simp add: b1 take30bytes_take_bit split_join)
  have po: "predicted_output cv (Q self) d pt = bits2"
    by (simp add: predicted_output_def rel b2)
  have t: "try_high_bits cv bits1 ?o2 (Q self) d (int ?h) = Some (take26bytes bits2)"
    unfolding try_high_bits_Some guess using curve_pt po by (simp add: take4MSBytes_def)
  then have "try_high_bits cv bits1 ?o2 (Q self) d (int ?h) \<noteq> None" by simp
  from prediction_loop_upt_returns [OF hlt this]
  show "\<exists>v. gen_prediction cv bits1 ?o2 (P self) (Q self) d = Inr v"
    by (simp only: gen_prediction_def)
  assume first: "\<forall>h<?h. \<not> verified cv bits1 ?o2 (Q self) d h"
  then have "\<forall>h'<?h. try_high_bits cv bits1 ?o2 (Q self) d (int h') = None"
    by (simp only: try_high_bits_None)
  with hlt t have "prediction_loop cv bits1 ?o2 (Q self) d [0..<2 ^ 16] = Inr (take26bytes bits2)"
    unfolding prediction_loop_upt_Inr by blast
  then show "gen_prediction cv bits1 ?o2 (P self) (Q self) d = Inr (bits2 AND (2 ^ (8 * 26) - 1))"
    by (simp only: gen_prediction_def take26bytes_def)
qed


text \<open>The round trip on the small curve, from seed 3 with \<open>d = 3\<close>.\<close>

lemma toy_two_outputs:
  "fst (genbits_n toy 2 \<lparr>seed = 3, P = Point 2 5, Q = Point 6 1\<rparr>) = [10, 4]"
  by code_simp

lemma toy_round_trip:
  "gen_prediction toy 10 (drop_bit (26 * 8) 4) (Point 2 5) (Point 6 1) 3
     = Inr (4 AND (2 ^ (8 * 26) - 1))"
proof -
  let ?self = "\<lparr>seed = 3, P = Point 2 5, Q = Point 6 1\<rparr>"
  have r1: "px (point_mul toy (px (point_mul toy (seed ?self) (P ?self))) (Q ?self)) = 10"
    by code_simp
  have rng: "0 \<le> px (point_mul toy (px (point_mul toy (seed ?self) (P ?self))) (Q ?self))"
    "px (point_mul toy (px (point_mul toy (seed ?self) (P ?self))) (Q ?self)) < 2 ^ 256"
    by (simp_all only: r1) simp_all
  have pt: "find_point_on_p256 toy
      (px (point_mul toy (px (point_mul toy (seed ?self) (P ?self))) (Q ?self))) = Some (Point 10 5)"
    by code_simp
  have rel: "px (point_mul toy 3 (Point 10 5))
      = px (point_mul toy (px (point_mul toy (seed ?self) (P ?self))) (P ?self))"
    by code_simp
  have first: "\<forall>h<nat (drop_bit 240
        (px (point_mul toy (px (point_mul toy (seed ?self) (P ?self))) (Q ?self)))).
      \<not> verified toy 10 (drop_bit (26 * 8) 4) (Q ?self) 3 h"
    by (simp only: r1) (simp add: drop_bit_eq_div)
  from round_trip(2) [OF toy_two_outputs rng pt rel first] show ?thesis by simp
qed

end
